theory Spec2Isabelle
  imports Complex_Main
begin

section \<open>The student-assistant shell: identity bootstrap, view router, loading gate\<close>

text \<open>
  A shallow embedding of \<^verbatim>\<open>src/App.jsx\<close>. The component's \<^verbatim>\<open>useState\<close> cells are the
  fields of one record; the effect body, the auth-state listener, the resumption of the
  asynchronous \<^verbatim>\<open>attemptSignIn\<close> and the tab buttons' click handler are functions on that
  record. The identity provider's client library is outside the repository: what its
  synchronous calls return or throw is a parameter (\<open>sdk\<close>), and what it does later
  (the listener firing, a sign-in promise settling) arrives as an event. Every call made
  into the library is appended to a trace, so that the order and the number of calls can
  be stated.
\<close>

subsection \<open>Values supplied by the hosting environment\<close>

text \<open>
  \<^verbatim>\<open>firebaseConfig\<close> is the result of \<^verbatim>\<open>JSON.parse\<close>, so it can be any JSON value, not
  only an object. An object is the list of its (distinct) keys with their values.
\<close>

datatype json =
    JNull
  | JBool bool
  | JNum rat
  | JStr string
  | JArr "json list"
  | JObj "(string \<times> json) list"

text \<open>JavaScript truthiness of a parsed JSON value (the operand of \<^verbatim>\<open>!firebaseConfig\<close>).\<close>

fun json_truthy :: "json \<Rightarrow> bool" where
  "json_truthy JNull = False"
| "json_truthy (JBool b) = b"
| "json_truthy (JNum q) = (q \<noteq> 0)"
| "json_truthy (JStr s) = (s \<noteq> [])"
| "json_truthy (JArr xs) = True"
| "json_truthy (JObj kvs) = True"

text \<open>
  \<^verbatim>\<open>Object.keys(v).length\<close> for a value that is not null: the own keys of an object, the
  indices of an array or of a string, nothing for a number or a boolean. On null the call
  throws, which the source excludes by testing \<^verbatim>\<open>!firebaseConfig\<close> first; the model keeps
  that order in \<open>config_missing\<close>.
\<close>

fun object_keys_length :: "json \<Rightarrow> nat" where
  "object_keys_length JNull = 0"
| "object_keys_length (JBool b) = 0"
| "object_keys_length (JNum q) = 0"
| "object_keys_length (JStr s) = length s"
| "object_keys_length (JArr xs) = length xs"
| "object_keys_length (JObj kvs) = length kvs"

text \<open>
  The three constants of lines 12 to 14 as the component reads them, once the module has
  been evaluated; \<open>None\<close> is \<^verbatim>\<open>undefined\<close>. The evaluation itself, with the call of
  \<^verbatim>\<open>JSON.parse\<close> that can throw, is \<open>module_scope\<close> below.
\<close>

record env =
  env_app_id :: "string option"
  env_firebase_config :: "json option"
  env_initial_auth_token :: "string option"

definition appId :: "env \<Rightarrow> string" where
  "appId en = (case env_app_id en of Some a \<Rightarrow> a | None \<Rightarrow> ''default-app-id'')"

text \<open>
  \<open>env_firebase_config\<close> holds the value \<^verbatim>\<open>JSON.parse\<close> returns for the global; without
  the global the source parses \<^verbatim>\<open>'{}'\<close>, the empty object.
\<close>

definition firebaseConfig :: "env \<Rightarrow> json" where
  "firebaseConfig en = (case env_firebase_config en of Some j \<Rightarrow> j | None \<Rightarrow> JObj [])"

definition initialAuthToken :: "env \<Rightarrow> string option" where
  "initialAuthToken en = env_initial_auth_token en"

text \<open>\<^verbatim>\<open>if (initialAuthToken)\<close>: null and the empty string are falsy.\<close>

fun token_truthy :: "string option \<Rightarrow> bool" where
  "token_truthy None = False"
| "token_truthy (Some t) = (t \<noteq> [])"

subsection \<open>The client library\<close>

text \<open>
  Handles are opaque. A thrown value is an error object with a \<^verbatim>\<open>message\<close>, which is
  what the library throws and what the handler of line 76 reads.
\<close>

type_synonym app_handle = nat
type_synonym db_handle = nat
type_synonym auth_handle = nat

datatype exn = Error (message: string)

datatype user = User (uid: string)

text \<open>What \<^verbatim>\<open>collection(db, path)\<close> returns: a reference, naming the store and the path.\<close>

datatype collection_ref = CollectionRef db_handle string

record sdk =
  initializeApp :: "json \<Rightarrow> exn + app_handle"
  getFirestore :: "app_handle \<Rightarrow> exn + db_handle"
  getAuth :: "app_handle \<Rightarrow> exn + auth_handle"
  onAuthStateChanged :: "auth_handle \<Rightarrow> exn + unit"
  collection :: "db_handle \<Rightarrow> string \<Rightarrow> exn + collection_ref"

datatype sdk_call =
    InitializeApp json
  | GetFirestore app_handle
  | GetAuth app_handle
  | OnAuthStateChanged auth_handle
  | SignInWithCustomToken auth_handle string
  | SignInAnonymously auth_handle

fun is_sign_in :: "sdk_call \<Rightarrow> bool" where
  "is_sign_in (SignInWithCustomToken a t) = True"
| "is_sign_in (SignInAnonymously a) = True"
| "is_sign_in c = False"

fun is_anonymous :: "sdk_call \<Rightarrow> bool" where
  "is_anonymous (SignInAnonymously a) = True"
| "is_anonymous c = False"

fun is_registration :: "sdk_call \<Rightarrow> bool" where
  "is_registration (OnAuthStateChanged a) = True"
| "is_registration c = False"

datatype console_entry = ConsoleError string exn

text \<open>
  Where \<^verbatim>\<open>attemptSignIn\<close> is suspended: at the \<^verbatim>\<open>await\<close> inside its \<^verbatim>\<open>try\<close> (lines 62
  and 64) or at the \<^verbatim>\<open>await\<close> of its \<^verbatim>\<open>catch\<close> (line 69).
\<close>

datatype await_point = AwaitPrimary auth_handle | AwaitFallback

subsection \<open>State\<close>

text \<open>
  The first seven fields are the component's state cells with their source names. The
  others record what the component has done to the outside: the listener it holds with
  the provider, the calls made, the console, the suspended sign-in, and rejections of
  \<^verbatim>\<open>attemptSignIn\<close>'s promise, which nothing handles.
\<close>

record sys =
  db :: "db_handle option"
  auth :: "auth_handle option"
  userId :: "string option"
  isAuthReady :: bool
  loadingMessage :: string
  activeTab :: string
  userStatus :: "string option"
  listener :: "auth_handle option"
  calls :: "sdk_call list"
  console :: "console_entry list"
  pending :: "await_point option"
  unhandled :: "exn list"

definition init_state :: sys where
  "init_state =
     \<lparr> db = None, auth = None, userId = None, isAuthReady = False,
       loadingMessage = ''Initializing application...'',
       activeTab = ''Chat'', userStatus = None,
       listener = None, calls = [], console = [], pending = None, unhandled = [] \<rparr>"

definition call :: "sdk_call \<Rightarrow> sys \<Rightarrow> sys" where
  "call c s = s\<lparr>calls := calls s @ [c]\<rparr>"

subsection \<open>The bootstrap effect (lines 30 to 79)\<close>

definition config_missing :: "json \<Rightarrow> bool" where
  "config_missing cfg = (\<not> json_truthy cfg \<or> object_keys_length cfg = 0)"

definition blocked_message :: string where
  "blocked_message = ''Firebase configuration missing. Cannot proceed with data storage.''"

text \<open>The callback given to \<^verbatim>\<open>onAuthStateChanged\<close> (lines 46 to 56).\<close>

definition authStateListener :: "user option \<Rightarrow> sys \<Rightarrow> sys" where
  "authStateListener u s =
     (let s1 = (case u of
                  Some usr \<Rightarrow>
                    s\<lparr>userId := Some (uid usr),
                      userStatus := Some (''Logged in as: '' @ take 8 (uid usr) @ ''...'')\<rparr>
                | None \<Rightarrow>
                    s\<lparr>userId := None,
                      userStatus := Some ''Authentication failed or not started.''\<rparr>)
      in s1\<lparr>isAuthReady := True,
            loadingMessage :=
              (case u of
                 Some usr \<Rightarrow> ''Authentication successful. Ready to load data.''
               | None \<Rightarrow> ''Authentication established.'')\<rparr>)"

text \<open>
  Calling \<^verbatim>\<open>attemptSignIn()\<close> (line 73) runs it to its first \<^verbatim>\<open>await\<close>: the sign-in call
  is made, and the function is suspended on the promise.
\<close>

definition attemptSignIn :: "auth_handle \<Rightarrow> string option \<Rightarrow> sys \<Rightarrow> sys" where
  "attemptSignIn a tok s =
     (let s1 = (case tok of
                  Some t \<Rightarrow>
                    if token_truthy tok
                    then call (SignInWithCustomToken a t) s
                    else call (SignInAnonymously a) s
                | None \<Rightarrow> call (SignInAnonymously a) s)
      in s1\<lparr>pending := Some (AwaitPrimary a)\<rparr>)"

datatype settled = Resolved | Rejected exn

text \<open>
  The promise \<^verbatim>\<open>attemptSignIn\<close> is waiting for settles. A rejection at the first
  \<^verbatim>\<open>await\<close> enters the \<^verbatim>\<open>catch\<close> (lines 66 to 70), whichever call was rejected; a
  rejection at the second one leaves the function, and its promise, which line 73 drops,
  is rejected.
\<close>

definition attemptSignIn_resume :: "settled \<Rightarrow> sys \<Rightarrow> sys" where
  "attemptSignIn_resume r s =
     (case pending s of
        None \<Rightarrow> s
      | Some (AwaitPrimary a) \<Rightarrow>
          (case r of
             Resolved \<Rightarrow> s\<lparr>pending := None\<rparr>
           | Rejected e \<Rightarrow>
               (call (SignInAnonymously a)
                  (s\<lparr>console := console s @ [ConsoleError ''Authentication error:'' e]\<rparr>))
               \<lparr>pending := Some AwaitFallback\<rparr>)
      | Some AwaitFallback \<Rightarrow>
          (case r of
             Resolved \<Rightarrow> s\<lparr>pending := None\<rparr>
           | Rejected e \<Rightarrow> s\<lparr>pending := None, unhandled := unhandled s @ [e]\<rparr>))"

text \<open>
  The \<^verbatim>\<open>try\<close> block (lines 38 to 74). The result says whether it completed or threw;
  the state is the one reached at that point, since the setters already called have taken
  effect.
\<close>

definition bootstrap_try :: "sdk \<Rightarrow> env \<Rightarrow> sys \<Rightarrow> (exn + unit) \<times> sys" where
  "bootstrap_try k en s =
     (let s1 = call (InitializeApp (firebaseConfig en)) s in
      case initializeApp k (firebaseConfig en) of
        Inl e \<Rightarrow> (Inl e, s1)
      | Inr app \<Rightarrow>
          (let s2 = call (GetFirestore app) s1 in
           case getFirestore k app of
             Inl e \<Rightarrow> (Inl e, s2)
           | Inr firestoreDb \<Rightarrow>
               (let s3 = call (GetAuth app) s2 in
                case getAuth k app of
                  Inl e \<Rightarrow> (Inl e, s3)
                | Inr firestoreAuth \<Rightarrow>
                    (let s4 = s3\<lparr>db := Some firestoreDb, auth := Some firestoreAuth\<rparr>;
                         s5 = call (OnAuthStateChanged firestoreAuth) s4 in
                     case onAuthStateChanged k firestoreAuth of
                       Inl e \<Rightarrow> (Inl e, s5)
                     | Inr u \<Rightarrow>
                         (Inr (),
                          attemptSignIn firestoreAuth (initialAuthToken en)
                            (s5\<lparr>listener := Some firestoreAuth\<rparr>))))))"

text \<open>The \<^verbatim>\<open>catch\<close> block (lines 75 to 78).\<close>

definition bootstrap_catch :: "exn \<Rightarrow> sys \<Rightarrow> (exn + unit) \<times> sys" where
  "bootstrap_catch e s =
     (Inr (),
      s\<lparr>loadingMessage := ''Failed to initialize Firebase: '' @ message e,
        console := console s @ [ConsoleError ''Firebase Initialization Error:'' e]\<rparr>)"

text \<open>The effect body: \<open>Inl\<close> would be an exception leaving the effect.\<close>

definition bootstrap :: "sdk \<Rightarrow> env \<Rightarrow> sys \<Rightarrow> (exn + unit) \<times> sys" where
  "bootstrap k en s =
     (if config_missing (firebaseConfig en)
      then (Inr (), s\<lparr>loadingMessage := blocked_message\<rparr>)
      else (case bootstrap_try k en s of
              (Inl e, s') \<Rightarrow> bootstrap_catch e s'
            | (Inr u, s') \<Rightarrow> (Inr (), s')))"

subsection \<open>Events after mounting\<close>

datatype tab_button = ChatButton | ScheduleButton | NotesButton

fun button_name :: "tab_button \<Rightarrow> string" where
  "button_name ChatButton = ''Chat''"
| "button_name ScheduleButton = ''Schedule''"
| "button_name NotesButton = ''Notes''"

datatype event =
    AuthStateChanged "user option"
  | SignInSettled settled
  | TabClicked tab_button

text \<open>
  The provider can only invoke a listener it has been given; the tab buttons (lines 166
  to 168) exist only in the main render, which the loading gate of line 88 precedes.
\<close>

fun step :: "event \<Rightarrow> sys \<Rightarrow> sys" where
  "step (AuthStateChanged u) s = (if listener s = None then s else authStateListener u s)"
| "step (SignInSettled r) s = attemptSignIn_resume r s"
| "step (TabClicked b) s = (if isAuthReady s then s\<lparr>activeTab := button_name b\<rparr> else s)"

fun run :: "event list \<Rightarrow> sys \<Rightarrow> sys" where
  "run [] s = s"
| "run (e # es) s = run es (step e s)"

text \<open>The state after mounting the component and then receiving the events \<open>es\<close>.\<close>

definition session :: "sdk \<Rightarrow> env \<Rightarrow> event list \<Rightarrow> sys" where
  "session k en es = run es (snd (bootstrap k en init_state))"

subsection \<open>The per-user path helper (lines 82 to 85)\<close>

text \<open>\<^verbatim>\<open>!userId\<close>: null and the empty string are falsy. A handle is an object, truthy.\<close>

fun id_truthy :: "string option \<Rightarrow> bool" where
  "id_truthy None = False"
| "id_truthy (Some u) = (u \<noteq> [])"

definition private_path :: "env \<Rightarrow> string \<Rightarrow> string \<Rightarrow> string" where
  "private_path en u collectionName =
     ''artifacts/'' @ appId en @ ''/users/'' @ u @ ''/'' @ collectionName"

definition getPrivateCollectionRef ::
  "sdk \<Rightarrow> env \<Rightarrow> sys \<Rightarrow> string \<Rightarrow> exn + collection_ref option" where
  "getPrivateCollectionRef k en s collectionName =
     (case (db s, userId s) of
        (Some d, Some u) \<Rightarrow>
          if \<not> id_truthy (userId s) then Inr None
          else (case collection k d (private_path en u collectionName) of
                  Inl e \<Rightarrow> Inl e
                | Inr r \<Rightarrow> Inr (Some r))
      | _ \<Rightarrow> Inr None)"

subsection \<open>Rendering (lines 88 to 190)\<close>

datatype placeholder = ChatView | ScheduleView | NotesView

fun placeholder_text :: "placeholder \<Rightarrow> string" where
  "placeholder_text ChatView = ''AI Chat Assistant (To be built in Step 7)''"
| "placeholder_text ScheduleView = ''Study Schedule/Reminders (To be built in Step 8)''"
| "placeholder_text NotesView = ''Quick Notes Storage (To be built in Step 9)''"

text \<open>An element of a placeholder component, with the props it is given.\<close>

record content =
  component :: placeholder
  prop_db :: "db_handle option"
  prop_userId :: "string option"
  prop_auth :: "auth_handle option"

definition element :: "placeholder \<Rightarrow> sys \<Rightarrow> content" where
  "element p s = \<lparr> component = p, prop_db = db s, prop_userId = userId s, prop_auth = auth s \<rparr>"

definition renderContent :: "sys \<Rightarrow> content" where
  "renderContent s =
     (if activeTab s = ''Chat'' then element ChatView s
      else if activeTab s = ''Schedule'' then element ScheduleView s
      else if activeTab s = ''Notes'' then element NotesView s
      else element ChatView s)"

record tab_button_view =
  tab_label :: string
  tab_highlighted :: bool

definition TabButton :: "sys \<Rightarrow> tab_button \<Rightarrow> tab_button_view" where
  "TabButton s b =
     \<lparr> tab_label = button_name b, tab_highlighted = (activeTab s = button_name b) \<rparr>"

record header =
  title :: string
  tabs :: "tab_button_view list"
  user_id_text :: string
  user_status_text :: "string option"

datatype screen =
    LoadingScreen string string
  | MainShell header content string

definition App_header :: "sys \<Rightarrow> header" where
  "App_header s =
     \<lparr> title = ''AI Student Assistant'',
       tabs = map (TabButton s) [ChatButton, ScheduleButton, NotesButton],
       user_id_text = (case userId s of Some u \<Rightarrow> if u \<noteq> [] then u else ''N/A'' | None \<Rightarrow> ''N/A''),
       user_status_text = userStatus s \<rparr>"

definition App_footer :: "env \<Rightarrow> string" where
  "App_footer en = ''Hackathon Project '' @ appId en"

definition App_render :: "env \<Rightarrow> sys \<Rightarrow> screen" where
  "App_render en s =
     (if \<not> isAuthReady s
      then LoadingScreen (loadingMessage s) ''Authenticating user...''
      else MainShell (App_header s) (renderContent s) (App_footer en))"

subsection \<open>Module evaluation (lines 12 to 14)\<close>





subsection \<open>Auxiliary definitions for the proofs\<close>

text \<open>
  Scanning the trace of library calls from its start, the listener registration is met
  before any sign-in call.
\<close>

fun registration_precedes :: "sdk_call list \<Rightarrow> bool" where
  "registration_precedes [] = True"
| "registration_precedes (c # cs) =
     (if is_registration c then True
      else if is_sign_in c then False
      else registration_precedes cs)"

text \<open>
  The invariant of the ordering: a suspended sign-in, and any sign-in call in the trace,
  come with a listener held and a registration in the trace.
\<close>

definition ordered :: "sys \<Rightarrow> bool" where
  "ordered s =
     (registration_precedes (calls s)
      \<and> (pending s = None \<or> (listener s \<noteq> None \<and> (\<exists>c\<in>set (calls s). is_registration c)))
      \<and> ((\<forall>c\<in>set (calls s). \<not> is_sign_in c) \<or> listener s \<noteq> None))"

text \<open>
  The \<^verbatim>\<open>try\<close> block runs to its end: the configuration passes the check of line 32
  and none of the four library calls of lines 38 to 46 throws.
\<close>

definition initializes ::
  "sdk \<Rightarrow> env \<Rightarrow> app_handle \<Rightarrow> db_handle \<Rightarrow> auth_handle \<Rightarrow> bool" where
  "initializes k en app d a =
     (json_truthy (firebaseConfig en) \<and> 0 < object_keys_length (firebaseConfig en)
      \<and> initializeApp k (firebaseConfig en) = Inr app
      \<and> getFirestore k app = Inr d
      \<and> getAuth k app = Inr a
      \<and> onAuthStateChanged k a = Inr ())"

text \<open>The trace of the four calls that set the client up.\<close>

definition setup_calls :: "env \<Rightarrow> app_handle \<Rightarrow> auth_handle \<Rightarrow> sdk_call list" where
  "setup_calls en app a =
     [InitializeApp (firebaseConfig en), GetFirestore app, GetAuth app, OnAuthStateChanged a]"

text \<open>
  A client library in which every synchronous call succeeds, and an environment with a
  one-key configuration, to run the model on.
\<close>

definition demo_sdk :: sdk where
  "demo_sdk =
     \<lparr> initializeApp = (\<lambda>cfg. Inr 1), getFirestore = (\<lambda>app. Inr 2), getAuth = (\<lambda>app. Inr 3),
       onAuthStateChanged = (\<lambda>a. Inr ()),
       collection = (\<lambda>d p. Inr (CollectionRef d p)) \<rparr>"




definition demo_env :: "string option \<Rightarrow> env" where
  "demo_env tok =
     \<lparr> env_app_id = Some ''demo'',
       env_firebase_config = Some (JObj [(''apiKey'', JStr ''k'')]),
       env_initial_auth_token = tok \<rparr>"

section \<open>Properties\<close>

subsection \<open>Steps and runs\<close>

lemmas boot_defs = bootstrap_def bootstrap_try_def bootstrap_catch_def attemptSignIn_def
  call_def Let_def

lemma run_append: "run (es @ es') s = run es' (run es s)"
  by (induction es arbitrary: s) simp_all

lemma listener_sets_ready: "isAuthReady (authStateListener u s)"
  by (simp add: authStateListener_def Let_def)

lemma resume_cells:
  "isAuthReady (attemptSignIn_resume r s) = isAuthReady s"
  "userId (attemptSignIn_resume r s) = userId s"
  "loadingMessage (attemptSignIn_resume r s) = loadingMessage s"
  "userStatus (attemptSignIn_resume r s) = userStatus s"
  "activeTab (attemptSignIn_resume r s) = activeTab s"
  "db (attemptSignIn_resume r s) = db s"
  "auth (attemptSignIn_resume r s) = auth s"
  "listener (attemptSignIn_resume r s) = listener s"
  by (simp_all add: attemptSignIn_resume_def call_def
      split: option.splits await_point.splits settled.splits)

lemma step_ready_mono: "isAuthReady s \<Longrightarrow> isAuthReady (step ev s)"
  by (cases ev) (simp_all add: listener_sets_ready resume_cells)

lemma run_ready_mono: "isAuthReady s \<Longrightarrow> isAuthReady (run es s)"
  by (induction es arbitrary: s) (simp_all add: step_ready_mono)

lemma step_listener: "listener (step ev s) = listener s"
  by (cases ev) (simp_all add: resume_cells authStateListener_def Let_def split: option.splits)

lemma run_listener: "listener (run es s) = listener s"
  by (induction es arbitrary: s) (simp_all add: step_listener)

lemma step_idle:
  "listener s = None \<Longrightarrow> pending s = None \<Longrightarrow> \<not> isAuthReady s \<Longrightarrow> step ev s = s"
  by (cases ev) (simp_all add: attemptSignIn_resume_def)

lemma run_idle:
  "listener s = None \<Longrightarrow> pending s = None \<Longrightarrow> \<not> isAuthReady s \<Longrightarrow> run es s = s"
  by (induction es) (simp_all add: step_idle)

lemma bootstrap_cells:
  "isAuthReady (snd (bootstrap k en s)) = isAuthReady s"
  "userId (snd (bootstrap k en s)) = userId s"
  "userStatus (snd (bootstrap k en s)) = userStatus s"
  "activeTab (snd (bootstrap k en s)) = activeTab s"
  by (simp_all add: boot_defs split: sum.splits option.splits)

lemma bootstrap_returns: "fst (bootstrap k en s) = Inr ()"
  by (simp add: boot_defs split: sum.splits option.splits)


subsection \<open>The blocked state\<close>

lemma blocked_state:
  assumes "config_missing (firebaseConfig en)"
  shows "session k en es = init_state\<lparr>loadingMessage := blocked_message\<rparr>"
proof -
  have b: "snd (bootstrap k en init_state) = init_state\<lparr>loadingMessage := blocked_message\<rparr>"
    using assms by (simp add: bootstrap_def)
  show ?thesis
    unfolding session_def b by (rule run_idle) (simp_all add: init_state_def)
qed

text \<open>
  Claim C2. When the configuration fails the check of line 32 (the empty object, and with it
  every value that is falsy or has no keys), the effect returns after setting the blocked
  message: whatever events follow, the readiness flag is false, the loading message is the
  blocked message, no handle is stored, no listener is held and no call into the client
  library was made, so the loading screen with that message is what is rendered.
\<close>
theorem empty_config_blocks:
  assumes "config_missing (firebaseConfig en)"
  shows "fst (bootstrap k en init_state) = Inr ()
       \<and> \<not> isAuthReady (session k en es)
       \<and> loadingMessage (session k en es) = blocked_message
       \<and> db (session k en es) = None
       \<and> auth (session k en es) = None
       \<and> listener (session k en es) = None
       \<and> calls (session k en es) = []
       \<and> App_render en (session k en es) = LoadingScreen blocked_message ''Authenticating user...''"
  using assms
  by (simp add: blocked_state bootstrap_returns init_state_def App_render_def)

theorem empty_config_blocks_witness:
  "config_missing (firebaseConfig \<lparr>env_app_id = None, env_firebase_config = Some (JObj []),
       env_initial_auth_token = Some ''tok''\<rparr>)
   \<and> \<not> isAuthReady (session demo_sdk \<lparr>env_app_id = None, env_firebase_config = Some (JObj []),
       env_initial_auth_token = Some ''tok''\<rparr>
         [AuthStateChanged (Some (User ''u1'')), SignInSettled Resolved, TabClicked NotesButton])
   \<and> calls (session demo_sdk \<lparr>env_app_id = None, env_firebase_config = Some (JObj []),
       env_initial_auth_token = Some ''tok''\<rparr>
         [AuthStateChanged (Some (User ''u1'')), SignInSettled Resolved, TabClicked NotesButton]) = []"
proof -
  have h: "config_missing (firebaseConfig \<lparr>env_app_id = None, env_firebase_config = Some (JObj []),
       env_initial_auth_token = Some ''tok''\<rparr>)"
    by (simp add: config_missing_def firebaseConfig_def)
  from empty_config_blocks [OF h, of demo_sdk
      "[AuthStateChanged (Some (User ''u1'')), SignInSettled Resolved, TabClicked NotesButton]"] h
  show ?thesis by simp
qed

subsection \<open>The readiness flag\<close>

lemma step_not_ready:
  "\<not> isAuthReady s \<Longrightarrow> (\<forall>u. ev \<noteq> AuthStateChanged u) \<Longrightarrow> \<not> isAuthReady (step ev s)"
  by (cases ev) (simp_all add: resume_cells)

lemma run_not_ready:
  "\<not> isAuthReady s \<Longrightarrow> (\<forall>ev\<in>set es. \<forall>u. ev \<noteq> AuthStateChanged u) \<Longrightarrow> \<not> isAuthReady (run es s)"
  by (induction es arbitrary: s) (simp_all add: step_not_ready)

text \<open>
  Claim C5. The readiness flag is false at the start and stays false through the bootstrap
  and through every sequence of events in which the listener is not invoked; an invocation
  of the listener sets it true, whether a user or null is reported; and neither an event
  nor the bootstrap makes a true flag false, so it is true in every later state.
\<close>
theorem readiness_flag_lifecycle:
  "\<not> isAuthReady init_state
   \<and> ((\<forall>ev\<in>set es. \<forall>u. ev \<noteq> AuthStateChanged u) \<longrightarrow> \<not> isAuthReady (session k en es))
   \<and> isAuthReady (authStateListener u s)
   \<and> (isAuthReady s \<longrightarrow> isAuthReady (step ev s))
   \<and> (isAuthReady s \<longrightarrow> isAuthReady (snd (bootstrap k en s)))
   \<and> (isAuthReady (session k en es) \<longrightarrow> isAuthReady (session k en (es @ es')))"
proof -
  have a: "\<not> isAuthReady (snd (bootstrap k en init_state))"
    by (simp add: bootstrap_cells init_state_def)
  have "(\<forall>ev\<in>set es. \<forall>u. ev \<noteq> AuthStateChanged u) \<longrightarrow> \<not> isAuthReady (session k en es)"
    unfolding session_def using run_not_ready [OF a] by blast
  moreover have "isAuthReady (session k en es) \<longrightarrow> isAuthReady (session k en (es @ es'))"
    by (simp add: session_def run_append run_ready_mono)
  ultimately show ?thesis
    by (simp add: listener_sets_ready step_ready_mono bootstrap_cells init_state_def)
qed

subsection \<open>The session identity\<close>

lemma step_identity_inv:
  "(\<not> isAuthReady s \<longrightarrow> userId s = None) \<Longrightarrow>
   (\<not> isAuthReady (step ev s) \<longrightarrow> userId (step ev s) = None)"
  by (cases ev) (simp_all add: resume_cells listener_sets_ready)

lemma run_identity_inv:
  "(\<not> isAuthReady s \<longrightarrow> userId s = None) \<Longrightarrow>
   (\<not> isAuthReady (run es s) \<longrightarrow> userId (run es s) = None)"
proof (induction es arbitrary: s)
  case Nil
  then show ?case by simp
next
  case (Cons ev es)
  from Cons.IH [OF step_identity_inv [OF Cons.prems]] show ?case by simp
qed

text \<open>
  Claim C9. In every state reached by the bootstrap and any events, the session identity
  is null as long as the readiness flag is false; a listener invocation with a user sets
  it to the user's \<^verbatim>\<open>uid\<close>, and one with null clears it.
\<close>
theorem session_identity_lifecycle:
  "(\<not> isAuthReady (session k en es) \<longrightarrow> userId (session k en es) = None)
   \<and> userId (authStateListener (Some usr) s) = Some (uid usr)
   \<and> userId (authStateListener None s) = None"
proof -
  have "\<not> isAuthReady (snd (bootstrap k en init_state)) \<longrightarrow>
        userId (snd (bootstrap k en init_state)) = None"
    by (simp add: bootstrap_cells init_state_def)
  from run_identity_inv [OF this]
  have "\<not> isAuthReady (session k en es) \<longrightarrow> userId (session k en es) = None"
    by (simp add: session_def)
  then show ?thesis by (simp add: authStateListener_def Let_def)
qed


theorem readiness_flag_lifecycle_witness:
  "\<not> isAuthReady (session demo_sdk (demo_env None) [SignInSettled Resolved])
   \<and> isAuthReady (step (TabClicked NotesButton) (authStateListener None init_state))
   \<and> isAuthReady (session demo_sdk (demo_env None)
         ([SignInSettled Resolved, AuthStateChanged None] @ [SignInSettled Resolved]))"
proof -
  have ready: "isAuthReady (authStateListener None init_state)"
    by (simp add: authStateListener_def)
  have fired: "isAuthReady (session demo_sdk (demo_env None)
                 [SignInSettled Resolved, AuthStateChanged None])"
    by (simp add: session_def demo_sdk_def demo_env_def boot_defs config_missing_def
        firebaseConfig_def initialAuthToken_def init_state_def attemptSignIn_resume_def
        authStateListener_def)
  from readiness_flag_lifecycle
    [of "[SignInSettled Resolved]" demo_sdk "demo_env None" None init_state
        "TabClicked NotesButton" "[SignInSettled Resolved]"]
  have a: "\<not> isAuthReady (session demo_sdk (demo_env None) [SignInSettled Resolved])"
    by simp
  from readiness_flag_lifecycle
    [of "[SignInSettled Resolved, AuthStateChanged None]" demo_sdk "demo_env None" None
        "authStateListener None init_state" "TabClicked NotesButton" "[SignInSettled Resolved]"]
    ready fired
  have b: "isAuthReady (step (TabClicked NotesButton) (authStateListener None init_state))"
    and c: "isAuthReady (session demo_sdk (demo_env None)
         ([SignInSettled Resolved, AuthStateChanged None] @ [SignInSettled Resolved]))"
    by blast+
  from a b c show ?thesis by blast
qed

theorem session_identity_lifecycle_witness:
  "\<not> isAuthReady (session demo_sdk (demo_env None) [SignInSettled Resolved])
   \<and> userId (session demo_sdk (demo_env None) [SignInSettled Resolved]) = None
   \<and> userId (authStateListener (Some (User ''u1'')) init_state) = Some ''u1''
   \<and> userId (authStateListener None (authStateListener (Some (User ''u1'')) init_state)) = None"
proof -
  have n: "\<not> isAuthReady (session demo_sdk (demo_env None) [SignInSettled Resolved])"
    by (simp add: session_def demo_sdk_def demo_env_def boot_defs config_missing_def
        firebaseConfig_def initialAuthToken_def init_state_def attemptSignIn_resume_def)
  from session_identity_lifecycle
    [of demo_sdk "demo_env None" "[SignInSettled Resolved]" "User ''u1''" init_state] n
  have a: "userId (session demo_sdk (demo_env None) [SignInSettled Resolved]) = None"
    and b: "userId (authStateListener (Some (User ''u1'')) init_state) = Some ''u1''"
    by simp_all
  from session_identity_lifecycle
    [of demo_sdk "demo_env None" "[]" "User ''u1''"
        "authStateListener (Some (User ''u1'')) init_state"]
  have c: "userId (authStateListener None (authStateListener (Some (User ''u1'')) init_state)) = None"
    by simp
  from n a b c show ?thesis by blast
qed

subsection \<open>Registration before sign-in\<close>

lemma registration_precedes_append:
  "registration_precedes cs \<Longrightarrow> \<exists>c\<in>set cs. is_registration c \<Longrightarrow>
   registration_precedes (cs @ ds)"
  by (induction cs) (auto split: if_splits)

lemma registration_precedes_index:
  "registration_precedes cs \<Longrightarrow> i < length cs \<Longrightarrow> is_sign_in (cs ! i) \<Longrightarrow>
   \<exists>j<i. is_registration (cs ! j)"
proof (induction cs arbitrary: i)
  case Nil
  then show ?case by simp
next
  case (Cons c cs)
  show ?case
  proof (cases "is_registration c")
    case True
    then have "\<not> is_sign_in c" by (cases c) simp_all
    with Cons.prems have "i \<noteq> 0" by (cases i) auto
    with True show ?thesis by (intro exI [of _ 0]) simp
  next
    case False
    with Cons.prems obtain i' where i: "i = Suc i'" and rp: "registration_precedes cs"
      by (cases i) (auto split: if_splits)
    with Cons.prems have "i' < length cs" "is_sign_in (cs ! i')" by simp_all
    from Cons.IH [OF rp this] obtain j where "j < i'" "is_registration (cs ! j)" by blast
    with i show ?thesis by (intro exI [of _ "Suc j"]) simp
  qed
qed

lemma bootstrap_ordered: "ordered (snd (bootstrap k en init_state))"
  by (simp add: ordered_def boot_defs init_state_def split: sum.splits option.splits)

lemma step_ordered: "ordered s \<Longrightarrow> ordered (step ev s)"
proof (cases ev)
  case (AuthStateChanged u)
  assume "ordered s"
  with AuthStateChanged show ?thesis
    by (auto simp: ordered_def authStateListener_def Let_def split: option.splits)
next
  case (SignInSettled r)
  assume "ordered s"
  with SignInSettled show ?thesis
    by (auto simp: ordered_def attemptSignIn_resume_def call_def
        intro: registration_precedes_append
        split: option.splits await_point.splits settled.splits)
next
  case (TabClicked b)
  assume "ordered s"
  with TabClicked show ?thesis by (simp add: ordered_def)
qed

lemma run_ordered: "ordered s \<Longrightarrow> ordered (run es s)"
  by (induction es arbitrary: s) (simp_all add: step_ordered)

text \<open>
  Claim C4. In every state of every run, each sign-in call in the trace of library calls
  has a listener registration at an earlier position, and the listener is held (the
  registration returned) whenever the trace has a sign-in call.
\<close>
theorem listener_registered_before_sign_in:
  "\<forall>i<length (calls (session k en es)).
     is_sign_in (calls (session k en es) ! i) \<longrightarrow>
       listener (session k en es) \<noteq> None
       \<and> (\<exists>j<i. is_registration (calls (session k en es) ! j))"
proof (intro allI impI)
  fix i
  assume i: "i < length (calls (session k en es))"
    and si: "is_sign_in (calls (session k en es) ! i)"
  have o: "ordered (session k en es)"
    unfolding session_def by (rule run_ordered) (rule bootstrap_ordered)
  from i si have "\<exists>c\<in>set (calls (session k en es)). is_sign_in c"
    using nth_mem by blast
  with o have "listener (session k en es) \<noteq> None"
    by (auto simp: ordered_def)
  moreover from o have "registration_precedes (calls (session k en es))"
    by (simp add: ordered_def)
  from registration_precedes_index [OF this i si]
  have "\<exists>j<i. is_registration (calls (session k en es) ! j)" .
  ultimately show "listener (session k en es) \<noteq> None
       \<and> (\<exists>j<i. is_registration (calls (session k en es) ! j))" ..
qed


theorem listener_registered_before_sign_in_witness:
  "length (calls (session demo_sdk (demo_env (Some ''tok''))
             [SignInSettled (Rejected (Error ''auth/invalid-custom-token''))])) = 6
   \<and> is_sign_in (calls (session demo_sdk (demo_env (Some ''tok''))
             [SignInSettled (Rejected (Error ''auth/invalid-custom-token''))]) ! 4)
   \<and> listener (session demo_sdk (demo_env (Some ''tok''))
             [SignInSettled (Rejected (Error ''auth/invalid-custom-token''))]) \<noteq> None
   \<and> (\<exists>j<4. is_registration (calls (session demo_sdk (demo_env (Some ''tok''))
             [SignInSettled (Rejected (Error ''auth/invalid-custom-token''))]) ! j))"
proof -
  let ?S = "session demo_sdk (demo_env (Some ''tok''))
              [SignInSettled (Rejected (Error ''auth/invalid-custom-token''))]"
  have c: "calls ?S =
      [InitializeApp (JObj [(''apiKey'', JStr ''k'')]), GetFirestore 1, GetAuth 1,
       OnAuthStateChanged 3, SignInWithCustomToken 3 ''tok'', SignInAnonymously 3]"
    by (simp add: session_def demo_sdk_def demo_env_def boot_defs config_missing_def
        firebaseConfig_def initialAuthToken_def init_state_def attemptSignIn_resume_def)
  then have l: "length (calls ?S) = 6" and s: "is_sign_in (calls ?S ! 4)" by simp_all
  from l have i: "4 < length (calls ?S)" by simp
  from listener_registered_before_sign_in
    [of demo_sdk "demo_env (Some ''tok'')"
        "[SignInSettled (Rejected (Error ''auth/invalid-custom-token''))]",
      rule_format, OF i s]
  have "listener ?S \<noteq> None \<and> (\<exists>j<4. is_registration (calls ?S ! j))" .
  with l s show ?thesis by blast
qed

subsection \<open>The sign-in sequence\<close>

lemma step_quiet:
  "(\<forall>r. ev \<noteq> SignInSettled r) \<Longrightarrow>
   calls (step ev s) = calls s \<and> pending (step ev s) = pending s
   \<and> console (step ev s) = console s"
  by (cases ev) (simp_all add: authStateListener_def Let_def split: option.splits)

lemma run_quiet:
  "(\<forall>ev\<in>set es. \<forall>r. ev \<noteq> SignInSettled r) \<Longrightarrow>
   calls (run es s) = calls s \<and> pending (run es s) = pending s
   \<and> console (run es s) = console s"
  by (induction es arbitrary: s) (simp_all add: step_quiet)

lemma step_after_primary:
  "(\<forall>a. pending s \<noteq> Some (AwaitPrimary a)) \<Longrightarrow>
   calls (step ev s) = calls s \<and> (\<forall>a. pending (step ev s) \<noteq> Some (AwaitPrimary a))"
  by (cases ev)
    (auto simp: authStateListener_def Let_def attemptSignIn_resume_def
      split: option.splits await_point.splits settled.splits)

lemma run_after_primary:
  "(\<forall>a. pending s \<noteq> Some (AwaitPrimary a)) \<Longrightarrow> calls (run es s) = calls s"
proof (induction es arbitrary: s)
  case Nil
  then show ?case by simp
next
  case (Cons ev es)
  from step_after_primary [OF Cons.prems, of ev]
  have c: "calls (step ev s) = calls s"
    and p: "\<forall>a. pending (step ev s) \<noteq> Some (AwaitPrimary a)" by blast+
  from Cons.IH [OF p] c show ?case by simp
qed

lemma bootstrap_initializes:
  assumes "initializes k en app d a"
  shows "snd (bootstrap k en init_state) =
           init_state\<lparr>db := Some d, auth := Some a, listener := Some a,
             calls := setup_calls en app a @
               [case initialAuthToken en of
                  Some t \<Rightarrow> if t \<noteq> [] then SignInWithCustomToken a t else SignInAnonymously a
                | None \<Rightarrow> SignInAnonymously a],
             pending := Some (AwaitPrimary a)\<rparr>"
  using assms
  by (simp add: initializes_def boot_defs config_missing_def setup_calls_def init_state_def
      split: option.splits)

lemma render_after_settle: "App_render en (attemptSignIn_resume r s) = App_render en s"
  by (simp add: App_render_def App_header_def renderContent_def element_def TabButton_def
      resume_cells)

lemma ready_after_listener:
  assumes "listener s \<noteq> None"
  shows "isAuthReady (run (es @ AuthStateChanged u # es') s)"
proof -
  have "listener (run es s) \<noteq> None" using assms by (simp add: run_listener)
  then have "isAuthReady (step (AuthStateChanged u) (run es s))"
    by (auto simp: listener_sets_ready)
  then show ?thesis by (simp add: run_append run_ready_mono)
qed

text \<open>
  Claim C3. With a configuration that initializes and a non-empty token: the first sign-in
  call is the token sign-in, made after the four setup calls; when the provider rejects
  it, the error is logged to the console, one anonymous sign-in follows and no later event
  adds another call; what is rendered is the same before and after the rejection; and once
  the listener is invoked, at any later point, the readiness flag is true.
\<close>
theorem rejected_token_falls_back_to_anonymous:
  assumes init: "initializes k en app d a"
    and tok: "initialAuthToken en = Some t" "t \<noteq> []"
    and pre: "\<forall>ev\<in>set pre. \<forall>r. ev \<noteq> SignInSettled r"
  shows "calls (session k en pre) = setup_calls en app a @ [SignInWithCustomToken a t]
       \<and> calls (session k en (pre @ SignInSettled (Rejected e) # post)) =
           setup_calls en app a @ [SignInWithCustomToken a t, SignInAnonymously a]
       \<and> console (session k en (pre @ [SignInSettled (Rejected e)])) =
           [ConsoleError ''Authentication error:'' e]
       \<and> App_render en (session k en (pre @ [SignInSettled (Rejected e)])) =
           App_render en (session k en pre)
       \<and> isAuthReady
           (session k en (pre @ SignInSettled (Rejected e) # post @ AuthStateChanged u # post'))"
proof -
  let ?b = "snd (bootstrap k en init_state)"
  let ?p = "run pre ?b"
  let ?r = "step (SignInSettled (Rejected e)) ?p"
  have b: "calls ?b = setup_calls en app a @ [SignInWithCustomToken a t]"
      "pending ?b = Some (AwaitPrimary a)" "console ?b = []" "listener ?b = Some a"
    unfolding bootstrap_initializes [OF init] using tok by (simp_all add: init_state_def)
  from run_quiet [OF pre, of ?b] b
  have p: "calls ?p = setup_calls en app a @ [SignInWithCustomToken a t]"
      "pending ?p = Some (AwaitPrimary a)" "console ?p = []"
    by simp_all
  then have r: "calls ?r = setup_calls en app a @ [SignInWithCustomToken a t, SignInAnonymously a]"
      "pending ?r = Some AwaitFallback"
      "console ?r = [ConsoleError ''Authentication error:'' e]"
    by (simp_all add: attemptSignIn_resume_def call_def)
  have "\<forall>a. pending ?r \<noteq> Some (AwaitPrimary a)" using r(2) by simp
  from run_after_primary [OF this, of post] r(1)
  have c2: "calls (session k en (pre @ SignInSettled (Rejected e) # post)) =
           setup_calls en app a @ [SignInWithCustomToken a t, SignInAnonymously a]"
    by (simp add: session_def run_append)
  have l: "listener ?b \<noteq> None" using b(4) by simp
  from ready_after_listener [OF l, of "pre @ SignInSettled (Rejected e) # post" u post']
  have rd: "isAuthReady
           (session k en (pre @ SignInSettled (Rejected e) # post @ AuthStateChanged u # post'))"
    by (simp add: session_def)
  show ?thesis
    using p(1) c2 r(3) rd by (simp add: session_def run_append render_after_settle)
qed


lemma demo_initializes: "initializes demo_sdk (demo_env tok) 1 2 3"
  by (simp add: initializes_def demo_sdk_def demo_env_def firebaseConfig_def)

theorem rejected_token_falls_back_to_anonymous_witness:
  "initializes demo_sdk (demo_env (Some ''tok'')) 1 2 3
   \<and> initialAuthToken (demo_env (Some ''tok'')) = Some ''tok''
   \<and> calls (session demo_sdk (demo_env (Some ''tok''))
        ([AuthStateChanged None] @ SignInSettled (Rejected (Error ''auth/invalid-custom-token''))
           # [SignInSettled (Rejected (Error ''auth/network-request-failed''))])) =
       setup_calls (demo_env (Some ''tok'')) 1 3
         @ [SignInWithCustomToken 3 ''tok'', SignInAnonymously 3]
   \<and> console (session demo_sdk (demo_env (Some ''tok''))
        ([AuthStateChanged None]
           @ [SignInSettled (Rejected (Error ''auth/invalid-custom-token''))])) =
       [ConsoleError ''Authentication error:'' (Error ''auth/invalid-custom-token'')]
   \<and> isAuthReady (session demo_sdk (demo_env (Some ''tok''))
        ([AuthStateChanged None] @ SignInSettled (Rejected (Error ''auth/invalid-custom-token''))
           # [SignInSettled (Rejected (Error ''auth/network-request-failed''))]
           @ AuthStateChanged (Some (User ''u1'')) # []))"
proof -
  have i: "initializes demo_sdk (demo_env (Some ''tok'')) 1 2 3"
    by (rule demo_initializes)
  have t: "initialAuthToken (demo_env (Some ''tok'')) = Some ''tok''" "''tok'' \<noteq> []"
    by (simp_all add: initialAuthToken_def demo_env_def)
  have p: "\<forall>ev\<in>set [AuthStateChanged None]. \<forall>r. ev \<noteq> SignInSettled r"
    by simp
  from rejected_token_falls_back_to_anonymous [OF i t p,
      of "Error ''auth/invalid-custom-token''"
         "[SignInSettled (Rejected (Error ''auth/network-request-failed''))]"
         "Some (User ''u1'')" "[]"] i t(1)
  show ?thesis by blast
qed

text \<open>
  Without a token, and with a configuration that initializes: as long as the anonymous
  sign-in has not settled, and after it is resolved, it is the only sign-in call of the
  run; and the readiness flag is true once the listener has been invoked.
\<close>

lemma anonymous_sign_in_once_when_resolved:
  assumes init: "initializes k en app d a"
    and tok: "\<not> token_truthy (initialAuthToken en)"
    and pre: "\<forall>ev\<in>set pre. \<forall>r. ev \<noteq> SignInSettled r"
  shows "calls (session k en pre) = setup_calls en app a @ [SignInAnonymously a]
       \<and> calls (session k en (pre @ SignInSettled Resolved # post)) =
           setup_calls en app a @ [SignInAnonymously a]
       \<and> isAuthReady (session k en (pre @ AuthStateChanged u # post))"
proof -
  let ?b = "snd (bootstrap k en init_state)"
  let ?p = "run pre ?b"
  let ?r = "step (SignInSettled Resolved) ?p"
  have b: "calls ?b = setup_calls en app a @ [SignInAnonymously a]"
      "pending ?b = Some (AwaitPrimary a)" "listener ?b = Some a"
    unfolding bootstrap_initializes [OF init] using tok
    by (auto simp: init_state_def split: option.splits)
  from run_quiet [OF pre, of ?b] b
  have p: "calls ?p = setup_calls en app a @ [SignInAnonymously a]"
      "pending ?p = Some (AwaitPrimary a)"
    by simp_all
  then have r: "calls ?r = setup_calls en app a @ [SignInAnonymously a]" "pending ?r = None"
    by (simp_all add: attemptSignIn_resume_def)
  have "\<forall>a. pending ?r \<noteq> Some (AwaitPrimary a)" using r(2) by simp
  from run_after_primary [OF this, of post] r(1)
  have c2: "calls (session k en (pre @ SignInSettled Resolved # post)) =
           setup_calls en app a @ [SignInAnonymously a]"
    by (simp add: session_def run_append)
  have l: "listener ?b \<noteq> None" using b(3) by simp
  from ready_after_listener [OF l, of pre u post]
  have "isAuthReady (session k en (pre @ AuthStateChanged u # post))"
    by (simp add: session_def)
  with p(1) c2 show ?thesis by (simp add: session_def)
qed

text \<open>
  Claim C1 says that without a token the anonymous sign-in is attempted exactly once. The
  code does otherwise when the provider rejects the attempt: with a configuration that
  initializes and no token, the first sign-in call is the anonymous one, and on its
  rejection the handler of lines 66 to 70, whose comment speaks of a failed custom token,
  makes the anonymous call again. The trace then holds two anonymous sign-in calls, and a
  rejection of the second one is handled nowhere.
\<close>

theorem anonymous_sign_in_repeated_after_rejection:
  assumes init: "initializes k en app d a"
    and tok: "\<not> token_truthy (initialAuthToken en)"
    and pre: "\<forall>ev\<in>set pre. \<forall>r. ev \<noteq> SignInSettled r"
  shows "calls (session k en (pre @ SignInSettled (Rejected e) # post)) =
           setup_calls en app a @ [SignInAnonymously a, SignInAnonymously a]
       \<and> length (filter is_anonymous
            (calls (session k en (pre @ SignInSettled (Rejected e) # post)))) = 2
       \<and> unhandled (session k en
            (pre @ [SignInSettled (Rejected e), SignInSettled (Rejected e')])) = [e']"
proof -
  let ?b = "snd (bootstrap k en init_state)"
  let ?p = "run pre ?b"
  let ?r = "step (SignInSettled (Rejected e)) ?p"
  have b: "calls ?b = setup_calls en app a @ [SignInAnonymously a]"
      "pending ?b = Some (AwaitPrimary a)" "unhandled ?b = []"
    unfolding bootstrap_initializes [OF init] using tok
    by (auto simp: init_state_def split: option.splits)
  have u: "unhandled (run es s) = unhandled s"
    if "\<forall>ev\<in>set es. \<forall>r. ev \<noteq> SignInSettled r" for es s
    using that
  proof (induction es arbitrary: s)
    case Nil
    then show ?case by simp
  next
    case (Cons ev es)
    then have "unhandled (step ev s) = unhandled s"
      by (cases ev) (simp_all add: authStateListener_def Let_def split: option.splits)
    with Cons show ?case by simp
  qed
  from run_quiet [OF pre, of ?b] b u [OF pre, of ?b]
  have p: "calls ?p = setup_calls en app a @ [SignInAnonymously a]"
      "pending ?p = Some (AwaitPrimary a)" "unhandled ?p = []"
    by simp_all
  then have r: "calls ?r = setup_calls en app a @ [SignInAnonymously a, SignInAnonymously a]"
      "pending ?r = Some AwaitFallback" "unhandled ?r = []"
    by (simp_all add: attemptSignIn_resume_def call_def)
  have "\<forall>a. pending ?r \<noteq> Some (AwaitPrimary a)" using r(2) by simp
  from run_after_primary [OF this, of post] r(1)
  have c2: "calls (session k en (pre @ SignInSettled (Rejected e) # post)) =
           setup_calls en app a @ [SignInAnonymously a, SignInAnonymously a]"
    by (simp add: session_def run_append)
  then have n: "length (filter is_anonymous
            (calls (session k en (pre @ SignInSettled (Rejected e) # post)))) = 2"
    by (simp add: setup_calls_def)
  have "unhandled (step (SignInSettled (Rejected e')) ?r) = [e']"
    using r by (simp add: attemptSignIn_resume_def)
  then have "unhandled (session k en
            (pre @ [SignInSettled (Rejected e), SignInSettled (Rejected e')])) = [e']"
    by (simp add: session_def run_append)
  with c2 n show ?thesis by blast
qed

theorem anonymous_sign_in_repeated_after_rejection_witness:
  "initializes demo_sdk (demo_env None) 1 2 3
   \<and> \<not> token_truthy (initialAuthToken (demo_env None))
   \<and> calls (session demo_sdk (demo_env None)
        ([] @ SignInSettled (Rejected (Error ''auth/network-request-failed'')) # [])) =
       setup_calls (demo_env None) 1 3 @ [SignInAnonymously 3, SignInAnonymously 3]
   \<and> length (filter is_anonymous (calls (session demo_sdk (demo_env None)
        ([] @ SignInSettled (Rejected (Error ''auth/network-request-failed'')) # [])))) = 2"
proof -
  have i: "initializes demo_sdk (demo_env None) 1 2 3"
    by (rule demo_initializes)
  have t: "\<not> token_truthy (initialAuthToken (demo_env None))"
    by (simp add: initialAuthToken_def demo_env_def)
  have p: "\<forall>ev\<in>set []. \<forall>r. ev \<noteq> SignInSettled r"
    by simp
  from anonymous_sign_in_repeated_after_rejection [OF i t p,
      of "Error ''auth/network-request-failed''" "[]"] i t
  show ?thesis by blast
qed


subsection \<open>The view router\<close>

text \<open>
  Claim C6. The router's result is determined by the selector and the three props it
  passes on: the label Chat gives the chat placeholder, Schedule the schedule placeholder,
  Notes the notes placeholder, every other selector value the chat placeholder; the three
  placeholders are different components showing different texts; and the state is not
  touched, the router being a function of it.
\<close>

theorem view_router:
  "(activeTab s = ''Chat'' \<longrightarrow> renderContent s = element ChatView s)
   \<and> (activeTab s = ''Schedule'' \<longrightarrow> renderContent s = element ScheduleView s)
   \<and> (activeTab s = ''Notes'' \<longrightarrow> renderContent s = element NotesView s)
   \<and> (activeTab s \<noteq> ''Chat'' \<and> activeTab s \<noteq> ''Schedule'' \<and> activeTab s \<noteq> ''Notes''
        \<longrightarrow> renderContent s = element ChatView s)
   \<and> component (element p s) = p
   \<and> distinct [ChatView, ScheduleView, NotesView]
   \<and> distinct (map placeholder_text [ChatView, ScheduleView, NotesView])
   \<and> (activeTab s = activeTab s' \<longrightarrow>
        component (renderContent s) = component (renderContent s'))"
  by (simp add: renderContent_def element_def)

theorem view_router_witness:
  "renderContent (init_state\<lparr>activeTab := ''Chat''\<rparr>) =
     element ChatView (init_state\<lparr>activeTab := ''Chat''\<rparr>)
   \<and> renderContent (init_state\<lparr>activeTab := ''Schedule''\<rparr>) =
     element ScheduleView (init_state\<lparr>activeTab := ''Schedule''\<rparr>)
   \<and> renderContent (init_state\<lparr>activeTab := ''Notes''\<rparr>) =
     element NotesView (init_state\<lparr>activeTab := ''Notes''\<rparr>)
   \<and> renderContent (init_state\<lparr>activeTab := ''Settings''\<rparr>) =
     element ChatView (init_state\<lparr>activeTab := ''Settings''\<rparr>)"
  using view_router [of "init_state\<lparr>activeTab := ''Chat''\<rparr>" ChatView init_state]
    view_router [of "init_state\<lparr>activeTab := ''Schedule''\<rparr>" ChatView init_state]
    view_router [of "init_state\<lparr>activeTab := ''Notes''\<rparr>" ChatView init_state]
    view_router [of "init_state\<lparr>activeTab := ''Settings''\<rparr>" ChatView init_state]
  by simp

subsection \<open>The loading gate\<close>

text \<open>
  Claim C7. With the readiness flag false the component renders the loading screen, which
  shows the current loading message and a fixed line, and nothing of the shell; with the
  flag true it renders the header, the router's output for the active panel and the
  footer.
\<close>

theorem loading_gate:
  "(\<not> isAuthReady s \<longrightarrow>
      App_render en s = LoadingScreen (loadingMessage s) ''Authenticating user...'')
   \<and> (isAuthReady s \<longrightarrow>
      App_render en s = MainShell (App_header s) (renderContent s) (App_footer en))"
  by (simp add: App_render_def)

theorem loading_gate_witness:
  "\<not> isAuthReady init_state
   \<and> App_render (demo_env None) init_state =
       LoadingScreen ''Initializing application...'' ''Authenticating user...''
   \<and> isAuthReady (authStateListener None init_state)
   \<and> App_render (demo_env None) (authStateListener None init_state) =
       MainShell (App_header (authStateListener None init_state))
         (renderContent (authStateListener None init_state)) ''Hackathon Project demo''"
proof -
  have a: "\<not> isAuthReady init_state" by (simp add: init_state_def)
  have b: "isAuthReady (authStateListener None init_state)"
    by (simp add: authStateListener_def)
  have m: "loadingMessage init_state = ''Initializing application...''"
    by (simp add: init_state_def)
  have f: "App_footer (demo_env None) = ''Hackathon Project demo''"
    by (simp add: App_footer_def appId_def demo_env_def)
  from loading_gate [of init_state "demo_env None"] a m
  have c: "App_render (demo_env None) init_state =
       LoadingScreen ''Initializing application...'' ''Authenticating user...''"
    by simp
  from loading_gate [of "authStateListener None init_state" "demo_env None"] b f
  have d: "App_render (demo_env None) (authStateListener None init_state) =
       MainShell (App_header (authStateListener None init_state))
         (renderContent (authStateListener None init_state)) ''Hackathon Project demo''"
    by simp
  from a b c d show ?thesis by blast
qed

subsection \<open>Exceptions of the initialization\<close>





subsection \<open>The per-user path helper\<close>

text \<open>
  Claim C10. For every collection name the helper returns null, without calling the
  library, when the database handle or the session identity is unset (the source tests
  both for truthiness, so an empty identity string counts as unset); when both are set it
  asks the library for the collection at
  \<^verbatim>\<open>artifacts/{appId}/users/{userId}/{collectionName}\<close> and returns the reference it
  gets, an exception of the library passing through.
\<close>

theorem private_collection_ref:
  "(db s = None \<or> userId s = None \<or> userId s = Some [] \<longrightarrow>
      getPrivateCollectionRef k en s n = Inr None)
   \<and> (db s = Some d \<and> userId s = Some u \<and> u \<noteq> [] \<longrightarrow>
      getPrivateCollectionRef k en s n =
        (case collection k d (''artifacts/'' @ appId en @ ''/users/'' @ u @ ''/'' @ n) of
           Inl e \<Rightarrow> Inl e
         | Inr r \<Rightarrow> Inr (Some r)))"
  by (auto simp: getPrivateCollectionRef_def private_path_def split: option.splits)

theorem private_collection_ref_witness:
  "getPrivateCollectionRef demo_sdk (demo_env None) init_state ''notes'' = Inr None
   \<and> getPrivateCollectionRef demo_sdk (demo_env None)
       (init_state\<lparr>db := Some 2, userId := Some ''u1''\<rparr>) ''notes'' =
       Inr (Some (CollectionRef 2 ''artifacts/demo/users/u1/notes''))"
proof -
  have a: "db init_state = None" by (simp add: init_state_def)
  from private_collection_ref
    [where s = init_state and k = demo_sdk and en = "demo_env None" and n = "''notes''"] a
  have 1: "getPrivateCollectionRef demo_sdk (demo_env None) init_state ''notes'' = Inr None"
    by blast
  have b: "db (init_state\<lparr>db := Some 2, userId := Some ''u1''\<rparr>) = Some 2
      \<and> userId (init_state\<lparr>db := Some 2, userId := Some ''u1''\<rparr>) = Some ''u1''
      \<and> ''u1'' \<noteq> []" by simp
  from private_collection_ref
    [where s = "init_state\<lparr>db := Some 2, userId := Some ''u1''\<rparr>" and d = 2
       and u = "''u1''" and k = demo_sdk and en = "demo_env None" and n = "''notes''"] b
  have "getPrivateCollectionRef demo_sdk (demo_env None)
       (init_state\<lparr>db := Some 2, userId := Some ''u1''\<rparr>) ''notes'' =
       (case collection demo_sdk 2 (''artifacts/'' @ appId (demo_env None) @ ''/users/''
            @ ''u1'' @ ''/'' @ ''notes'') of Inl e \<Rightarrow> Inl e | Inr r \<Rightarrow> Inr (Some r))"
    by blast
  then have 2: "getPrivateCollectionRef demo_sdk (demo_env None)
       (init_state\<lparr>db := Some 2, userId := Some ''u1''\<rparr>) ''notes'' =
       Inr (Some (CollectionRef 2 ''artifacts/demo/users/u1/notes''))"
    by (simp add: demo_sdk_def appId_def demo_env_def)
  from 1 2 show ?thesis by blast
qed

end
